theory Spec2Isabelle
  imports Main "HOL-Library.Multiset"
begin

section \<open>Python strings\<close>

text \<open>
  A Python \<^verbatim>\<open>str\<close> is a sequence of Unicode code points, so a string is a list of
  natural numbers here. \<open>ustr\<close> reads an ASCII literal as such a list.
\<close>

type_synonym ustring = "nat list"

definition ustr :: "string \<Rightarrow> ustring" where
  "ustr s = map of_char s"

text \<open>
  \<^verbatim>\<open>str.isspace\<close>, which \<^verbatim>\<open>str.strip()\<close> uses: the code points U+0009..U+000D,
  U+001C..U+0020, U+0085, U+00A0, U+1680, U+2000..U+200A, U+2028, U+2029, U+202F, U+205F
  and U+3000.
\<close>

definition is_space :: "nat \<Rightarrow> bool" where
  "is_space c \<longleftrightarrow>
     (9 \<le> c \<and> c \<le> 13) \<or> (28 \<le> c \<and> c \<le> 32) \<or> c = 133 \<or> c = 160 \<or> c = 5760 \<or>
     (8192 \<le> c \<and> c \<le> 8202) \<or> c = 8232 \<or> c = 8233 \<or> c = 8239 \<or> c = 8287 \<or> c = 12288"

text \<open>
  The line boundaries of \<^verbatim>\<open>str.splitlines\<close>: LF, VT, FF, CR, FS, GS, RS, NEL, LS and PS
  (and CR LF, which counts once).
\<close>

definition is_linebreak :: "nat \<Rightarrow> bool" where
  "is_linebreak c \<longleftrightarrow>
     (10 \<le> c \<and> c \<le> 13) \<or> (28 \<le> c \<and> c \<le> 30) \<or> c = 133 \<or> c = 8232 \<or> c = 8233"

definition lstrip :: "ustring \<Rightarrow> ustring" where
  "lstrip s = dropWhile is_space s"

definition rstrip :: "ustring \<Rightarrow> ustring" where
  "rstrip s = rev (dropWhile is_space (rev s))"

definition strip :: "ustring \<Rightarrow> ustring" where
  "strip s = rstrip (lstrip s)"

text \<open>\<^verbatim>\<open>s.splitlines()\<close>: no line for the empty string, none after a final boundary.\<close>

fun splitlines :: "ustring \<Rightarrow> ustring list" where
  "splitlines [] = []"
| "splitlines [c] = (if is_linebreak c then [[]] else [[c]])"
| "splitlines (c # d # cs) =
     (if c = 13 \<and> d = 10 then [] # splitlines cs
      else if is_linebreak c then [] # splitlines (d # cs)
      else (case splitlines (d # cs) of [] \<Rightarrow> [[c]] | l # ls \<Rightarrow> (c # l) # ls))"

text \<open>\<^verbatim>\<open>s.split(sep)\<close> for a separator of one code point: always at least one piece.\<close>

primrec split_on :: "nat \<Rightarrow> ustring \<Rightarrow> ustring list" where
  "split_on sep [] = [[]]"
| "split_on sep (c # cs) =
     (if c = sep then [] # split_on sep cs
      else (case split_on sep cs of [] \<Rightarrow> [[c]] | p # ps \<Rightarrow> (c # p) # ps))"

text \<open>
  \<^verbatim>\<open>line.split("  ")\<close>: the separator is exactly two spaces, found from the left, so three
  spaces in a row leave one space at the head of the next piece.
\<close>

fun split_2sp :: "ustring \<Rightarrow> ustring list" where
  "split_2sp [] = [[]]"
| "split_2sp [c] = [[c]]"
| "split_2sp (c # d # cs) =
     (if c = 32 \<and> d = 32 then [] # split_2sp cs
      else (case split_2sp (d # cs) of [] \<Rightarrow> [[c]] | p # ps \<Rightarrow> (c # p) # ps))"

text \<open>\<^verbatim>\<open>sep.join(xs)\<close>.\<close>

fun join :: "ustring \<Rightarrow> ustring list \<Rightarrow> ustring" where
  "join sep [] = []"
| "join sep [x] = x"
| "join sep (x # y # ys) = x @ sep @ join sep (y # ys)"

text \<open>\<^verbatim>\<open>s.startswith(p)\<close>.\<close>

definition startswith :: "ustring \<Rightarrow> ustring \<Rightarrow> bool" where
  "startswith s p \<longleftrightarrow> take (length p) s = p"

text \<open>
  \<^verbatim>\<open>s.replace(old, new)\<close> for a non-empty \<open>old\<close>, the only way the program calls it:
  every occurrence, found from the left, without overlap. (For an empty \<open>old\<close> Python puts
  \<open>new\<close> between all code points; this function then returns \<open>s\<close>.)
\<close>

function replace :: "ustring \<Rightarrow> ustring \<Rightarrow> ustring \<Rightarrow> ustring" where
  "replace old new s =
     (if s = [] then []
      else if old \<noteq> [] \<and> take (length old) s = old
           then new @ replace old new (drop (length old) s)
           else hd s # replace old new (tl s))"
  by pat_completeness auto
termination
  by (relation "measure (\<lambda>(old, new, s). length s)") auto

declare replace.simps [simp del]

text \<open>\<^verbatim>\<open>str(n)\<close> for a non-negative integer.\<close>

fun str_nat :: "nat \<Rightarrow> ustring" where
  "str_nat n = (if n < 10 then [48 + n] else str_nat (n div 10) @ [48 + n mod 10])"

declare str_nat.simps [simp del]

text \<open>\<^verbatim>\<open>os.path.basename\<close> (POSIX): what follows the last slash.\<close>

definition basename :: "ustring \<Rightarrow> ustring" where
  "basename p = rev (takeWhile (\<lambda>c. c \<noteq> 47) (rev p))"


section \<open>The text normalizer\<close>

text \<open>
  Lines 29 to 31 of \<^verbatim>\<open>extract_text_from_html\<close>, repeated at lines 120 to 122 of
  \<^verbatim>\<open>split_by_xpath\<close>:
  \<^verbatim>\<open>
  lines = (line.strip() for line in text.splitlines())
  chunks = (phrase.strip() for line in lines for phrase in line.split("  "))
  text = '\n'.join(chunk for chunk in chunks if chunk)
  \<close>
\<close>

definition chunks_of :: "ustring \<Rightarrow> ustring list" where
  "chunks_of text =
     filter (\<lambda>chunk. chunk \<noteq> [])
       (map strip (concat (map split_2sp (map strip (splitlines text)))))"

definition normalize_text :: "ustring \<Rightarrow> ustring" where
  "normalize_text text = join [10] (chunks_of text)"


section \<open>The ordering and merge engine\<close>

text \<open>
  \<^verbatim>\<open>re.search(r'\d+', name)\<close>: the first maximal run of decimal digits. In a \<^verbatim>\<open>str\<close>
  pattern \<^verbatim>\<open>\d\<close> is any code point of Unicode category Nd, and \<^verbatim>\<open>int\<close> reads such
  digits; the table of digit values is the parameter \<open>dv\<close> (\<open>None\<close>: not a digit).
  \<open>ascii_digit\<close> is the table restricted to \<^verbatim>\<open>0\<close>..\<^verbatim>\<open>9\<close>.
\<close>

definition ascii_digit :: "nat \<Rightarrow> nat option" where
  "ascii_digit c = (if 48 \<le> c \<and> c \<le> 57 then Some (c - 48) else None)"

primrec digit_run :: "(nat \<Rightarrow> nat option) \<Rightarrow> ustring \<Rightarrow> nat list" where
  "digit_run dv [] = []"
| "digit_run dv (c # cs) = (case dv c of None \<Rightarrow> [] | Some d \<Rightarrow> d # digit_run dv cs)"

primrec search_digits :: "(nat \<Rightarrow> nat option) \<Rightarrow> ustring \<Rightarrow> nat list option" where
  "search_digits dv [] = None"
| "search_digits dv (c # cs) =
     (case dv c of None \<Rightarrow> search_digits dv cs | Some d \<Rightarrow> Some (d # digit_run dv cs))"

text \<open>\<^verbatim>\<open>int(match.group(1))\<close>: Python integers are unbounded.\<close>

definition int_of_digits :: "nat list \<Rightarrow> nat" where
  "int_of_digits ds = foldl (\<lambda>a d. 10 * a + d) 0 ds"

definition has_numbering :: "(nat \<Rightarrow> nat option) \<Rightarrow> ustring list \<Rightarrow> bool" where
  "has_numbering dv summary_files =
     list_ex (\<lambda>f. search_digits dv (basename f) \<noteq> None) summary_files"

text \<open>The local function \<^verbatim>\<open>sort_key\<close> of \<^verbatim>\<open>merge_summaries\<close>.\<close>

definition file_sort_key :: "(nat \<Rightarrow> nat option) \<Rightarrow> ustring \<Rightarrow> nat" where
  "file_sort_key dv file_path =
     (case search_digits dv (basename file_path) of
        Some ds \<Rightarrow> int_of_digits ds
      | None \<Rightarrow> 0)"

text \<open>
  \<^verbatim>\<open>sorted(xs, key=k)\<close> returns a new list and is stable; insertion sort by key is the
  stable sort of the library.
\<close>

definition py_sorted :: "('a \<Rightarrow> nat) \<Rightarrow> 'a list \<Rightarrow> 'a list" where
  "py_sorted k xs = sort_key k xs"

text \<open>The value of \<^verbatim>\<open>sorted_files\<close> (lines 115 to 131).\<close>

definition sorted_files :: "(nat \<Rightarrow> nat option) \<Rightarrow> ustring list \<Rightarrow> ustring list" where
  "sorted_files dv summary_files =
     (if has_numbering dv summary_files
      then py_sorted (file_sort_key dv) summary_files
      else summary_files)"


section \<open>Chapters\<close>

text \<open>
  A chapter is a Python dictionary with the keys \<^verbatim>\<open>title\<close> and \<^verbatim>\<open>content\<close>, and, when
  the detector or the orchestrator sets them, \<^verbatim>\<open>href\<close> and \<^verbatim>\<open>level\<close>: a missing key is
  \<open>None\<close>.
\<close>

record chapter_rec =
  title :: ustring
  content :: ustring
  href :: "ustring option"
  level :: "nat option"


section \<open>The pattern detector\<close>

text \<open>
  \<^verbatim>\<open>split_by_regex\<close> (lines 45 to 75). The regular expression engine is not part of the
  program: \<open>cm line\<close> stands for \<^verbatim>\<open>re.match(self.chapter_regex, line, re.IGNORECASE)\<close>
  having found a match. \<^verbatim>\<open>current_chapter\<close> starts as \<^verbatim>\<open>None\<close>, and the tests
  \<^verbatim>\<open>if current_chapter:\<close> are false for \<^verbatim>\<open>None\<close> and for the empty string.
\<close>

definition truthy :: "ustring option \<Rightarrow> bool" where
  "truthy current_chapter = (case current_chapter of None \<Rightarrow> False | Some t \<Rightarrow> t \<noteq> [])"

definition save_current :: "chapter_rec list \<Rightarrow> ustring option \<Rightarrow> ustring list \<Rightarrow> chapter_rec list" where
  "save_current chapters current_chapter current_content =
     (case current_chapter of
        None \<Rightarrow> chapters
      | Some t \<Rightarrow>
          if t \<noteq> []
          then chapters @ [\<lparr>title = t, content = join [10] current_content,
                            href = None, level = None\<rparr>]
          else chapters)"

primrec regex_loop ::
  "(ustring \<Rightarrow> bool) \<Rightarrow> ustring list \<Rightarrow> chapter_rec list \<Rightarrow> ustring option \<Rightarrow> ustring list
     \<Rightarrow> chapter_rec list" where
  "regex_loop cm [] chapters current_chapter current_content =
     save_current chapters current_chapter current_content"
| "regex_loop cm (line # lines) chapters current_chapter current_content =
     (if cm line
      then regex_loop cm lines (save_current chapters current_chapter current_content)
             (Some (strip line)) []
      else regex_loop cm lines chapters current_chapter
             (if truthy current_chapter then current_content @ [line] else current_content))"

definition split_by_regex :: "(ustring \<Rightarrow> bool) \<Rightarrow> ustring \<Rightarrow> chapter_rec list" where
  "split_by_regex cm text = regex_loop cm (split_on 10 text) [] None []"

text \<open>
  The pattern detector as the specification words it: one chapter for each matching line,
  titled with the line trimmed, holding the lines up to the next matching line.
\<close>

primrec pattern_chapters :: "(ustring \<Rightarrow> bool) \<Rightarrow> ustring list \<Rightarrow> chapter_rec list" where
  "pattern_chapters cm [] = []"
| "pattern_chapters cm (line # lines) =
     (if cm line
      then \<lparr>title = strip line,
            content = join [10] (takeWhile (\<lambda>l. \<not> cm l) lines),
            href = None, level = None\<rparr> # pattern_chapters cm lines
      else pattern_chapters cm lines)"


section \<open>The structural detector\<close>

text \<open>
  An element of the tree that \<^verbatim>\<open>lxml\<close> parses: its tag, its \<^verbatim>\<open>class\<close> attribute when it
  has one, its text before the first child, its child elements, and its tail (the text
  between its end and the next sibling). Comments and processing instructions are left out.
\<close>

datatype element =
  Element (tag: ustring) (class_attr: "ustring option") (etext: ustring)
    (children: "element list") (tail: ustring)

text \<open>The string value of an element in XPath (\<^verbatim>\<open>.\<close>): all its text, without its own tail.\<close>

primrec string_value :: "element \<Rightarrow> ustring" where
  "string_value (Element tg cl tx ch ta) =
     tx @ concat (map (\<lambda>c. string_value c @ tail c) ch)"

text \<open>
  The node test of both XPath expressions,
  \<^verbatim>\<open>((name()='h1' or name()='h2') and re:test(., '...', 'i')) or @class = 'chapter'\<close>.
  \<open>rx\<close> stands for the EXSLT function \<^verbatim>\<open>re:test\<close> with the expression and the flag of
  the source, applied to the string value of the node.
\<close>

definition is_chapter_node :: "(ustring \<Rightarrow> bool) \<Rightarrow> element \<Rightarrow> bool" where
  "is_chapter_node rx e \<longleftrightarrow>
     ((tag e = ustr ''h1'' \<or> tag e = ustr ''h2'') \<and> rx (string_value e))
     \<or> class_attr e = Some (ustr ''chapter'')"

text \<open>
  \<^verbatim>\<open>//*\<close> lists the elements in document order. Each is paired with its following
  siblings, which is what the repeated \<^verbatim>\<open>getnext()\<close> walks through.
\<close>

fun nodes_with_next :: "element list \<Rightarrow> (element \<times> element list) list" where
  "nodes_with_next [] = []"
| "nodes_with_next (Element tg cl tx ch ta # rest) =
     (Element tg cl tx ch ta, rest) # nodes_with_next ch @ nodes_with_next rest"

definition chapter_nodes :: "(ustring \<Rightarrow> bool) \<Rightarrow> element \<Rightarrow> (element \<times> element list) list" where
  "chapter_nodes rx root = filter (\<lambda>(e, sibs). is_chapter_node rx e) (nodes_with_next [root])"

text \<open>
  The method call \<^verbatim>\<open>text_content()\<close> (lines 97 and 115). The tree comes from
  \<^verbatim>\<open>etree.fromstring\<close> with \<^verbatim>\<open>etree.HTMLParser()\<close> (lines 82 and 83), whose elements are
  plain \<^verbatim>\<open>etree\<close> elements: \<^verbatim>\<open>text_content\<close> is a method of the elements of \<^verbatim>\<open>lxml.html\<close>
  only, so the call raises \<^verbatim>\<open>AttributeError\<close> on every element of this tree.
\<close>

datatype py_error = AttributeError

definition text_content :: "element \<Rightarrow> py_error + ustring" where
  "text_content e = Inl AttributeError"

text \<open>
  The \<^verbatim>\<open>while next_sibling is not None\<close> loop (lines 103 to 116); \<open>Inl\<close> when a call
  in it raises.
\<close>

primrec content_elements :: "(ustring \<Rightarrow> bool) \<Rightarrow> element list \<Rightarrow> py_error + ustring list" where
  "content_elements rx [] = Inr []"
| "content_elements rx (next_sibling # rest) =
     (if is_chapter_node rx next_sibling then Inr []
      else (case text_content next_sibling of
              Inl e \<Rightarrow> Inl e
            | Inr t \<Rightarrow>
                (case content_elements rx rest of
                   Inl e \<Rightarrow> Inl e
                 | Inr ts \<Rightarrow> Inr (t # ts))))"

text \<open>
  The \<^verbatim>\<open>for\<close> loop over the chapter nodes (lines 95 to 128), inside the \<^verbatim>\<open>try\<close> block
  of line 80: when a call raises, the handler at line 130 prints the error and line 133
  returns the chapters appended so far.
\<close>

primrec xpath_loop ::
  "(ustring \<Rightarrow> bool) \<Rightarrow> (element \<times> element list) list \<Rightarrow> chapter_rec list \<Rightarrow> chapter_rec list" where
  "xpath_loop rx [] chapters = chapters"
| "xpath_loop rx (node # nodes) chapters =
     (case text_content (fst node) of
        Inl e \<Rightarrow> chapters
      | Inr t \<Rightarrow>
          (case content_elements rx (snd node) of
             Inl e \<Rightarrow> chapters
           | Inr ts \<Rightarrow>
               (let title = strip t;
                    content = normalize_text (join [10] ts)
                in xpath_loop rx nodes
                     (if title \<noteq> [] \<and> content \<noteq> []
                      then chapters @ [\<lparr>title = title, content = content,
                                        href = None, level = None\<rparr>]
                      else chapters))))"

text \<open>
  \<^verbatim>\<open>split_by_xpath\<close> (lines 77 to 133). The argument is the tree that \<^verbatim>\<open>etree.fromstring\<close>
  returns, or \<open>None\<close> when parsing raises: the handler at line 130 then returns the empty
  list.
\<close>

definition split_by_xpath :: "(ustring \<Rightarrow> bool) \<Rightarrow> element option \<Rightarrow> chapter_rec list" where
  "split_by_xpath rx tree =
     (case tree of
        None \<Rightarrow> []
      | Some root \<Rightarrow> xpath_loop rx (chapter_nodes rx root) [])"


section \<open>The loaded document\<close>

text \<open>
  What the program reads from a book that \<^verbatim>\<open>ebooklib\<close> has loaded. An item has its name, its
  type, and its content as the two parsers of the program see it: \<open>soup_text\<close> is what
  \<^verbatim>\<open>BeautifulSoup(...).get_text()\<close> returns once the script and style elements are removed,
  \<open>html_tree\<close> is what \<^verbatim>\<open>etree.fromstring\<close> returns (\<open>None\<close> when it raises). The content
  is taken to decode as UTF-8. An entry of the table of contents has an \<^verbatim>\<open>href\<close> attribute
  or not, a title, and its sub-entries (\<^verbatim>\<open>items\<close>, empty when the attribute is missing).
\<close>

record epub_item =
  file_name :: ustring
  is_document :: bool
  soup_text :: ustring
  html_tree :: "element option"

datatype toc_item =
  TocItem (toc_href: "ustring option") (toc_title: ustring) (toc_items: "toc_item list")

record epub_book =
  items :: "epub_item list"
  toc :: "toc_item list"

text \<open>\<^verbatim>\<open>book.get_item_with_href\<close>: the first item of that name.\<close>

definition get_item_with_href :: "epub_book \<Rightarrow> ustring \<Rightarrow> epub_item option" where
  "get_item_with_href bk h = find (\<lambda>i. file_name i = h) (items bk)"

text \<open>\<^verbatim>\<open>extract_text_from_html\<close> (lines 21 to 32) on the content of an item.\<close>

definition extract_text_from_html :: "epub_item \<Rightarrow> ustring" where
  "extract_text_from_html i = normalize_text (soup_text i)"

text \<open>\<^verbatim>\<open>extract_all_text\<close> (lines 34 to 43).\<close>

definition extract_all_text :: "epub_book \<Rightarrow> ustring" where
  "extract_all_text bk =
     join [10] (filter (\<lambda>text. text \<noteq> [])
       (map extract_text_from_html (filter is_document (items bk))))"


section \<open>The navigation detector\<close>

text \<open>\<^verbatim>\<open>process_toc_item\<close> (lines 139 to 159); the result is what it appends.\<close>

fun process_toc_item :: "epub_book \<Rightarrow> toc_item \<Rightarrow> nat \<Rightarrow> chapter_rec list" where
  "process_toc_item bk (TocItem h t subitems) lvl =
     (if lvl > 2 then []
      else
        (case h of
           None \<Rightarrow> []
         | Some hr \<Rightarrow>
             (case get_item_with_href bk hr of
                None \<Rightarrow> []
              | Some content_item \<Rightarrow>
                  [\<lparr>title = t, content = extract_text_from_html content_item,
                    href = Some hr, level = Some lvl\<rparr>]))
        @ concat (map (\<lambda>subitem. process_toc_item bk subitem (lvl + 1)) subitems))"

text \<open>The name \<^verbatim>\<open>chapter_<i>.html\<close>.\<close>

definition chapter_href :: "nat \<Rightarrow> ustring" where
  "chapter_href i = ustr ''chapter_'' @ str_nat i @ ustr ''.html''"

text \<open>The loop over \<^verbatim>\<open>self.book.toc\<close> (lines 162 and 163).\<close>

definition toc_traversal :: "epub_book \<Rightarrow> chapter_rec list" where
  "toc_traversal bk = concat (map (\<lambda>toc_item. process_toc_item bk toc_item 0) (toc bk))"

text \<open>\<^verbatim>\<open>get_toc_chapters\<close> (lines 135 to 177).\<close>

definition get_toc_chapters :: "(ustring \<Rightarrow> bool) \<Rightarrow> epub_book \<Rightarrow> bool \<Rightarrow> chapter_rec list" where
  "get_toc_chapters cm bk include_all =
     (let chapters = toc_traversal bk
      in if include_all \<and> chapters = []
         then map (\<lambda>(i, c). \<lparr>title = title c, content = content c,
                               href = Some (chapter_href i), level = Some 0\<rparr>)
                (enumerate 0 (split_by_regex cm (extract_all_text bk)))
         else chapters)"


section \<open>The segmentation orchestrator\<close>

text \<open>
  The loop over the document items of lines 186 to 191 and of lines 244 to 249: the
  chapters of the structural detector, item after item.
\<close>

definition xpath_items :: "(ustring \<Rightarrow> bool) \<Rightarrow> epub_book \<Rightarrow> chapter_rec list" where
  "xpath_items rx bk =
     concat (map (\<lambda>i. split_by_xpath rx (html_tree i)) (filter is_document (items bk)))"

text \<open>
  The methods \<^verbatim>\<open>_split_by_xpath\<close>, \<^verbatim>\<open>_split_by_regex\<close> and \<^verbatim>\<open>_split_by_toc\<close> (lines 242 to
  262) extend the list they are given; they return it here.
\<close>

definition split_by_xpath_into :: "(ustring \<Rightarrow> bool) \<Rightarrow> epub_book \<Rightarrow> chapter_rec list \<Rightarrow> chapter_rec list" where
  "split_by_xpath_into rx bk chapters = chapters @ xpath_items rx bk"

definition split_by_regex_into :: "(ustring \<Rightarrow> bool) \<Rightarrow> epub_book \<Rightarrow> chapter_rec list \<Rightarrow> chapter_rec list" where
  "split_by_regex_into cm bk chapters =
     (let regex_chapters = split_by_regex cm (extract_all_text bk)
      in if regex_chapters \<noteq> [] then chapters @ regex_chapters else chapters)"

definition split_by_toc_into :: "(ustring \<Rightarrow> bool) \<Rightarrow> epub_book \<Rightarrow> chapter_rec list \<Rightarrow> chapter_rec list" where
  "split_by_toc_into cm bk chapters =
     (let toc_chapters = get_toc_chapters cm bk False
      in if toc_chapters \<noteq> [] then chapters @ toc_chapters else chapters)"

text \<open>\<^verbatim>\<open>split_into_chapters\<close> (lines 218 to 240).\<close>

definition split_into_chapters ::
  "(ustring \<Rightarrow> bool) \<Rightarrow> (ustring \<Rightarrow> bool) \<Rightarrow> epub_book \<Rightarrow> ustring \<Rightarrow> chapter_rec list" where
  "split_into_chapters rx cm bk detection_method =
     (if detection_method = ustr ''xpath'' then split_by_xpath_into rx bk []
      else if detection_method = ustr ''regex'' then split_by_regex_into cm bk []
      else if detection_method = ustr ''toc'' then split_by_toc_into cm bk []
      else
        (let chapters = split_by_xpath_into rx bk [];
             chapters = (if chapters = [] then split_by_regex_into cm bk chapters else chapters);
             chapters = (if chapters = [] then split_by_toc_into cm bk chapters else chapters)
         in chapters))"

text \<open>\<^verbatim>\<open>get_all_chapters\<close>, lines 181 to 198: the chapters of the requested method.\<close>

definition requested_chapters ::
  "(ustring \<Rightarrow> bool) \<Rightarrow> (ustring \<Rightarrow> bool) \<Rightarrow> epub_book \<Rightarrow> ustring \<Rightarrow> chapter_rec list" where
  "requested_chapters rx cm bk detection_method =
     (if detection_method = ustr ''xpath'' then xpath_items rx bk
      else if detection_method = ustr ''regex'' then split_by_regex cm (extract_all_text bk)
      else if detection_method = ustr ''toc'' then get_toc_chapters cm bk True
      else [])"

text \<open>\<^verbatim>\<open>get_all_chapters\<close>, lines 200 to 207: the other methods, when there is none.\<close>

definition choose_chapters ::
  "(ustring \<Rightarrow> bool) \<Rightarrow> (ustring \<Rightarrow> bool) \<Rightarrow> epub_book \<Rightarrow> ustring \<Rightarrow> chapter_rec list" where
  "choose_chapters rx cm bk detection_method =
     (let chapters = requested_chapters rx cm bk detection_method
      in if chapters = []
         then (let chapters = get_toc_chapters cm bk True
               in if chapters = [] then split_by_regex cm (extract_all_text bk) else chapters)
         else chapters)"

text \<open>\<^verbatim>\<open>get_all_chapters\<close>, lines 209 to 214: the keys every chapter is given.\<close>

definition add_attributes :: "chapter_rec list \<Rightarrow> chapter_rec list" where
  "add_attributes chapters =
     map (\<lambda>(i, c).
            c\<lparr>href := (case href c of None \<Rightarrow> Some (chapter_href i) | Some h \<Rightarrow> Some h),
              level := (case level c of None \<Rightarrow> Some 0 | Some l \<Rightarrow> Some l)\<rparr>)
       (enumerate 0 chapters)"

definition get_all_chapters ::
  "(ustring \<Rightarrow> bool) \<Rightarrow> (ustring \<Rightarrow> bool) \<Rightarrow> epub_book \<Rightarrow> ustring \<Rightarrow> chapter_rec list" where
  "get_all_chapters rx cm bk detection_method =
     add_attributes (choose_chapters rx cm bk detection_method)"


section \<open>The merged document\<close>

text \<open>
  The fixed texts of \<^verbatim>\<open>merge_summaries\<close> beyond ASCII, as code points: the title of the
  document (U+5168 U+4E66 U+603B U+89C8), the heading of the index (U+76EE U+5F55) and the
  note for a summary that cannot be read (U+8BFB U+53D6 U+603B U+7ED3 U+5185 U+5BB9 U+5931
  U+8D25).
\<close>

definition overview_title :: ustring where
  "overview_title = [20840, 20070, 24635, 35272]"

definition index_heading :: ustring where
  "index_heading = [30446, 24405]"

definition read_failed_note :: ustring where
  "read_failed_note = [35835, 21462, 24635, 32467, 20869, 23481, 22833, 36133]"

text \<open>
  \<^verbatim>\<open>os.path.basename(summary_file).replace('_summary.md', '').replace('_', ' ')\<close>
  (lines 140 and 152).
\<close>

definition chapter_title :: "ustring \<Rightarrow> ustring" where
  "chapter_title summary_file =
     replace (ustr ''_'') (ustr '' '')
       (replace (ustr ''_summary.md'') [] (basename summary_file))"

text \<open>
  The loop that writes the index (lines 139 to 141). \<open>merged_file\<close> is what has been
  written to the output so far, \<open>i\<close> the counter of \<^verbatim>\<open>enumerate\<close>.
\<close>

primrec index_loop :: "nat \<Rightarrow> ustring list \<Rightarrow> ustring \<Rightarrow> ustring" where
  "index_loop i [] merged_file = merged_file"
| "index_loop i (summary_file # rest) merged_file =
     index_loop (i + 1) rest
       (merged_file @ str_nat (i + 1) @ ustr ''. ['' @ chapter_title summary_file
          @ ustr ''](#'' @ str_nat (i + 1) @ ustr '')\<newline>'')"

text \<open>Lines 158 and 159: the lines of a summary that do not start with \<^verbatim>\<open>#\<close> once trimmed.\<close>

definition content_lines :: "ustring \<Rightarrow> ustring list" where
  "content_lines stored =
     filter (\<lambda>line. \<not> startswith (strip line) (ustr ''#'')) (split_on 10 stored)"

text \<open>
  The loop that writes the sections (lines 146 to 164). \<open>rd\<close> is the outcome of
  opening and reading a summary: its text, or the message of the exception (\<open>Inl\<close>). The
  read comes first in the \<^verbatim>\<open>try\<close> block, so nothing of the section is written yet when it
  fails and the handler writes the whole section.
\<close>

primrec sections_loop ::
  "(ustring \<Rightarrow> ustring + ustring) \<Rightarrow> nat \<Rightarrow> ustring list \<Rightarrow> ustring \<Rightarrow> ustring" where
  "sections_loop rd i [] merged_file = merged_file"
| "sections_loop rd i (summary_file # rest) merged_file =
     sections_loop rd (i + 1) rest
       (case rd summary_file of
          Inr stored \<Rightarrow>
            merged_file
              @ ustr ''## '' @ str_nat (i + 1) @ ustr ''. '' @ chapter_title summary_file
              @ ustr ''\<newline>\<newline>''
              @ strip (join [10] (content_lines stored)) @ ustr ''\<newline>\<newline>''
        | Inl e \<Rightarrow>
            merged_file
              @ ustr ''## '' @ str_nat (i + 1) @ ustr ''. '' @ basename summary_file
              @ ustr ''\<newline>\<newline>''
              @ read_failed_note @ ustr '': '' @ e @ ustr ''\<newline>\<newline>'')"

text \<open>What lines 133 to 164 write to the output, for the files in their resolved order.\<close>

definition merged_document :: "(ustring \<Rightarrow> ustring + ustring) \<Rightarrow> ustring list \<Rightarrow> ustring" where
  "merged_document rd files =
     sections_loop rd 0 files
       (index_loop 0 files
          (ustr ''# '' @ overview_title @ ustr ''\<newline>\<newline>''
             @ ustr ''## '' @ index_heading @ ustr ''\<newline>\<newline>'')
        @ ustr ''\<newline>'')"


section \<open>The merge as a whole, on a store\<close>

text \<open>
  Python lists are objects that a callee can change under its caller, so the lists live in
  a heap of references here. \<open>next_ref\<close> is the first reference not yet given out.
  \<open>written\<close> holds the files the program has written.
\<close>

record pystate =
  heap :: "nat \<Rightarrow> ustring list option"
  next_ref :: nat
  written :: "ustring \<Rightarrow> ustring option"

text \<open>
  The files as the merge finds them: the outcome of reading each summary, and whether the
  output can be opened for writing (\<open>Some e\<close>: \<^verbatim>\<open>open\<close> raises with message \<open>e\<close>).
\<close>

record file_env =
  read_text :: "ustring \<Rightarrow> ustring + ustring"
  open_for_write :: "ustring \<Rightarrow> ustring option"

text \<open>\<^verbatim>\<open>sorted\<close> builds a new list object.\<close>

definition new_list :: "pystate \<Rightarrow> ustring list \<Rightarrow> pystate \<times> nat" where
  "new_list st xs =
     (st\<lparr>heap := (heap st)(next_ref st \<mapsto> xs), next_ref := next_ref st + 1\<rparr>, next_ref st)"

text \<open>
  \<^verbatim>\<open>merge_summaries\<close> (lines 109 to 166). The argument \<open>summary_files\<close> is a reference. The
  result is the state after the call, with \<open>Inr True\<close> when the call returns and \<open>Inl\<close> the
  message when it raises: for an argument that is no list, and when the output cannot be
  opened. In the branch without numbering \<^verbatim>\<open>sorted_files\<close> is the argument itself.
\<close>

definition merge_summaries ::
  "(nat \<Rightarrow> nat option) \<Rightarrow> file_env \<Rightarrow> pystate \<Rightarrow> nat \<Rightarrow> ustring \<Rightarrow> pystate \<times> (ustring + bool)" where
  "merge_summaries dv env st summary_files output_path =
     (case heap st summary_files of
        None \<Rightarrow> (st, Inl (ustr ''TypeError''))
      | Some fs \<Rightarrow>
          (let (st1, sorted_ref) =
                 (if has_numbering dv fs
                  then new_list st (py_sorted (file_sort_key dv) fs)
                  else (st, summary_files))
           in case open_for_write env output_path of
                Some e \<Rightarrow> (st1, Inl e)
              | None \<Rightarrow>
                  (case heap st1 sorted_ref of
                     None \<Rightarrow> (st1, Inl (ustr ''TypeError''))
                   | Some files \<Rightarrow>
                       (st1\<lparr>written := (written st1)
                               (output_path \<mapsto> merged_document (read_text env) files)\<rparr>,
                        Inr True))))"


section \<open>Specification wordings and examples\<close>

text \<open>
  The number that a list of decimal digit values writes, most significant digit first:
  the digit at distance \<open>i\<close> from the end counts \<open>10 ^ i\<close> times.
\<close>

definition decimal_value :: "nat list \<Rightarrow> nat" where
  "decimal_value vs = sum_list (map (\<lambda>(d, i). d * 10 ^ i) (zip (rev vs) [0..<length vs]))"

text \<open>Whether a string holds two spaces in a row, the separator of \<open>split_2sp\<close>.\<close>

fun has_2sp :: "ustring \<Rightarrow> bool" where
  "has_2sp (c # d # cs) = ((c = 32 \<and> d = 32) \<or> has_2sp (d # cs))"
| "has_2sp _ = False"

text \<open>
  A matcher for examples: it accepts the lines \<^verbatim>\<open>Chapter 1\<close> and \<^verbatim>\<open>Chapter 2\<close>, which
  \<^verbatim>\<open>chapter_regex\<close> matches, and no other line.
\<close>

definition example_titles :: "ustring \<Rightarrow> bool" where
  "example_titles l \<longleftrightarrow> l = ustr ''Chapter 1'' \<or> l = ustr ''Chapter 2''"

text \<open>
  The structural detector as the specification words it: one chapter for each heading
  node, in document order, titled with the rendered text of the node trimmed, holding the
  normalized text of the siblings up to the next heading node.
\<close>

definition heading_chapters :: "(ustring \<Rightarrow> bool) \<Rightarrow> element \<Rightarrow> chapter_rec list" where
  "heading_chapters rx root =
     map (\<lambda>(e, sibs).
            \<lparr>title = strip (string_value e),
             content = normalize_text (join [10]
               (map string_value (takeWhile (\<lambda>s. \<not> is_chapter_node rx s) sibs))),
             href = None, level = None\<rparr>)
       (chapter_nodes rx root)"

text \<open>
  A document for examples, \<^verbatim>\<open><html><body><div class="chapter">One</div><p>text</p></body></html>\<close>.
  It holds no \<^verbatim>\<open>h1\<close> or \<^verbatim>\<open>h2\<close> element, so \<^verbatim>\<open>re:test\<close> is never consulted on it and
  \<open>no_regex\<close> can stand for it.
\<close>

definition no_regex :: "ustring \<Rightarrow> bool" where
  "no_regex s \<longleftrightarrow> False"

definition heading_doc :: element where
  "heading_doc =
     Element (ustr ''html'') None []
       [Element (ustr ''body'') None []
          [Element (ustr ''div'') (Some (ustr ''chapter'')) (ustr ''One'') [] [],
           Element (ustr ''p'') None (ustr ''text'') [] []] []] []"

text \<open>
  Books for examples: one whose only document has a chapter line and no heading node,
  with one entry in its table of contents, and one without items or entries.
\<close>

definition pattern_only_book :: epub_book where
  "pattern_only_book =
     \<lparr>items = [\<lparr>file_name = ustr ''a.xhtml'', is_document = True,
                 soup_text = ustr ''Chapter 1\<newline>  body  \<newline>'',
                 html_tree = Some (Element (ustr ''body'') None []
                   [Element (ustr ''p'') None (ustr ''Chapter 1'') [] [],
                    Element (ustr ''p'') None (ustr ''body'') [] []] [])\<rparr>],
      toc = [TocItem (Some (ustr ''a.xhtml'')) (ustr ''Start'') []]\<rparr>"

definition empty_book :: epub_book where
  "empty_book = \<lparr>items = [], toc = []\<rparr>"

text \<open>
  The merged document as the specification words it: a head, one index entry and one
  section for each file, numbered from 1; the section of a file that is read, and the
  section of a file whose reading fails.
\<close>

definition index_entry :: "nat \<Rightarrow> ustring \<Rightarrow> ustring" where
  "index_entry n f =
     str_nat n @ ustr ''. ['' @ chapter_title f @ ustr ''](#'' @ str_nat n @ ustr '')\<newline>''"

definition readable_section :: "nat \<Rightarrow> ustring \<Rightarrow> ustring \<Rightarrow> ustring" where
  "readable_section n f stored =
     ustr ''## '' @ str_nat n @ ustr ''. '' @ chapter_title f @ ustr ''\<newline>\<newline>''
       @ strip (join [10]
           (filter (\<lambda>line. \<not> startswith (strip line) (ustr ''#'')) (split_on 10 stored)))
       @ ustr ''\<newline>\<newline>''"

definition failed_section :: "nat \<Rightarrow> ustring \<Rightarrow> ustring \<Rightarrow> ustring" where
  "failed_section n f e =
     ustr ''## '' @ str_nat n @ ustr ''. '' @ basename f @ ustr ''\<newline>\<newline>''
       @ read_failed_note @ ustr '': '' @ e @ ustr ''\<newline>\<newline>''"

definition sections :: "(ustring \<Rightarrow> ustring + ustring) \<Rightarrow> ustring list \<Rightarrow> ustring list" where
  "sections rd files =
     map (\<lambda>(k, f). case rd f of
                      Inr stored \<Rightarrow> readable_section (k + 1) f stored
                    | Inl e \<Rightarrow> failed_section (k + 1) f e)
       (enumerate 0 files)"

definition index_entries :: "ustring list \<Rightarrow> ustring list" where
  "index_entries files = map (\<lambda>(k, f). index_entry (k + 1) f) (enumerate 0 files)"

definition document_head :: ustring where
  "document_head =
     ustr ''# '' @ overview_title @ ustr ''\<newline>\<newline>'' @ ustr ''## '' @ index_heading
       @ ustr ''\<newline>\<newline>''"

text \<open>
  Files for examples: a summary with a heading line after its body text, a file system
  where one summary cannot be read, and a state holding one list of two summaries.
\<close>

definition noted_summary :: ustring where
  "noted_summary = ustr ''# T\<newline>\<newline>body\<newline># note\<newline>more''"

definition example_env :: file_env where
  "example_env =
     \<lparr>read_text = (\<lambda>f. if f = ustr ''out/ch2_summary.md''
                         then Inl (ustr ''No such file'') else Inr noted_summary),
      open_for_write = (\<lambda>p. None)\<rparr>"

definition example_state :: pystate where
  "example_state =
     \<lparr>heap = [0 \<mapsto> [ustr ''out/ch2_summary.md'', ustr ''out/ch1_summary.md'']],
      next_ref = 1,
      written = Map.empty\<rparr>"


section \<open>Merge ordering\<close>

lemma search_digits_None_iff:
  "search_digits dv s = None \<longleftrightarrow> (\<forall>c \<in> set s. dv c = None)"
  by (induction s) (auto split: option.splits)

lemma has_numbering_iff:
  "has_numbering dv fs \<longleftrightarrow> (\<exists>f \<in> set fs. \<exists>c \<in> set (basename f). dv c \<noteq> None)"
  by (auto simp: has_numbering_def list_ex_iff search_digits_None_iff)

lemma digit_run_append:
  "map dv ds = map Some vs \<Longrightarrow> rest = [] \<or> dv (hd rest) = None \<Longrightarrow>
     digit_run dv (ds @ rest) = vs"
proof (induction ds arbitrary: vs)
  case Nil
  then show ?case by (cases rest) auto
next
  case (Cons c ds)
  then obtain v vs' where vs: "vs = v # vs'" and c: "dv c = Some v"
    and r: "map dv ds = map Some vs'" by (cases vs) auto
  from Cons.IH [OF r Cons.prems(2)] vs c show ?case by simp
qed

lemma search_digits_first:
  assumes "\<forall>c \<in> set pre. dv c = None" and "vs \<noteq> []" and "map dv ds = map Some vs"
    and "rest = [] \<or> dv (hd rest) = None"
  shows "search_digits dv (pre @ ds @ rest) = Some vs"
  using assms(1)
proof (induction pre)
  case Nil
  from assms(2,3) obtain c ds' v vs' where ds: "ds = c # ds'" and vs: "vs = v # vs'"
    and c: "dv c = Some v" and r: "map dv ds' = map Some vs'"
    by (cases ds; cases vs) auto
  from digit_run_append [OF r assms(4)] ds vs c show ?case by simp
next
  case (Cons a pre)
  then show ?case by simp
qed

lemma int_of_digits_snoc: "int_of_digits (vs @ [d]) = 10 * int_of_digits vs + d"
  by (simp add: int_of_digits_def)

lemma sum_list_shift:
  "sum_list (map (\<lambda>(d, i). d * 10 ^ i) (zip xs (map Suc is)))
     = 10 * sum_list (map (\<lambda>(d, i). d * (10::nat) ^ i) (zip xs is))"
proof (induction xs arbitrary: "is")
  case Nil
  show ?case by simp
next
  case (Cons x xs)
  show ?case by (cases "is") (simp_all add: Cons.IH algebra_simps)
qed

lemma decimal_value_snoc: "decimal_value (vs @ [d]) = 10 * decimal_value vs + d"
proof -
  have "[0..<Suc (length vs)] = 0 # map Suc [0..<length vs]"
    by (simp add: upt_conv_Cons map_Suc_upt del: upt_Suc)
  then show ?thesis
    by (simp add: decimal_value_def sum_list_shift del: upt_Suc)
qed

lemma int_of_digits_decimal: "int_of_digits vs = decimal_value vs"
proof (induction vs rule: rev_induct)
  case Nil
  show ?case by (simp add: int_of_digits_def decimal_value_def)
next
  case (snoc d vs)
  then show ?case by (simp add: int_of_digits_snoc decimal_value_snoc)
qed

lemma file_sort_key_first_numeral:
  assumes "basename f = pre @ ds @ rest" and "\<forall>c \<in> set pre. dv c = None" and "vs \<noteq> []"
    and "map dv ds = map Some vs" and "rest = [] \<or> dv (hd rest) = None"
  shows "file_sort_key dv f = decimal_value vs"
  using search_digits_first [OF assms(2-5)] assms(1)
  by (simp add: file_sort_key_def int_of_digits_decimal)

text \<open>
  Claim C1. When some base name holds a numeral, the files are taken in ascending order of
  the first numeral of their base name: the keys of the resolved list are sorted, the
  resolved list is a permutation of the input, and files of equal key keep their input
  order (stability). When no base name holds a numeral, the resolved list is the input
  list. There is numbering exactly when some base name holds a digit. The key of a file is
  0 when its base name holds no digit; when the base name is a digit-free prefix, then a
  run of digits that ends the name or is followed by a non-digit, then the rest, the key
  is the decimal value of that run.
\<close>

theorem merge_order:
  "(has_numbering dv fs \<longrightarrow>
      sorted (map (file_sort_key dv) (sorted_files dv fs)) \<and>
      mset (sorted_files dv fs) = mset fs \<and>
      (\<forall>k. filter (\<lambda>f. file_sort_key dv f = k) (sorted_files dv fs)
           = filter (\<lambda>f. file_sort_key dv f = k) fs)) \<and>
   (\<not> has_numbering dv fs \<longrightarrow> sorted_files dv fs = fs) \<and>
   (\<forall>f. search_digits dv (basename f) = None \<longrightarrow> file_sort_key dv f = 0) \<and>
   (has_numbering dv fs \<longleftrightarrow> (\<exists>f \<in> set fs. \<exists>c \<in> set (basename f). dv c \<noteq> None)) \<and>
   (\<forall>f. (\<forall>c \<in> set (basename f). dv c = None) \<longrightarrow> file_sort_key dv f = 0) \<and>
   (\<forall>f pre ds rest vs.
      basename f = pre @ ds @ rest \<and> (\<forall>c \<in> set pre. dv c = None) \<and>
      vs \<noteq> [] \<and> map dv ds = map Some vs \<and> (rest = [] \<or> dv (hd rest) = None)
      \<longrightarrow> file_sort_key dv f = decimal_value vs)"
proof (intro conjI impI allI)
  assume "has_numbering dv fs"
  then show "sorted (map (file_sort_key dv) (sorted_files dv fs))"
    by (simp add: sorted_files_def py_sorted_def)
next
  assume "has_numbering dv fs"
  then show "mset (sorted_files dv fs) = mset fs"
    by (simp add: sorted_files_def py_sorted_def)
next
  fix k
  assume "has_numbering dv fs"
  then show "filter (\<lambda>f. file_sort_key dv f = k) (sorted_files dv fs)
               = filter (\<lambda>f. file_sort_key dv f = k) fs"
    by (simp add: sorted_files_def py_sorted_def sort_key_stable)
next
  assume "\<not> has_numbering dv fs"
  then show "sorted_files dv fs = fs"
    by (simp add: sorted_files_def)
next
  fix f
  assume "search_digits dv (basename f) = None"
  then show "file_sort_key dv f = 0"
    by (simp add: file_sort_key_def)
next
  show "has_numbering dv fs \<longleftrightarrow> (\<exists>f \<in> set fs. \<exists>c \<in> set (basename f). dv c \<noteq> None)"
    by (rule has_numbering_iff)
next
  fix f
  assume "\<forall>c \<in> set (basename f). dv c = None"
  then have "search_digits dv (basename f) = None" by (simp add: search_digits_None_iff)
  then show "file_sort_key dv f = 0" by (simp add: file_sort_key_def)
next
  fix f pre ds rest vs
  assume "basename f = pre @ ds @ rest \<and> (\<forall>c \<in> set pre. dv c = None) \<and>
      vs \<noteq> [] \<and> map dv ds = map Some vs \<and> (rest = [] \<or> dv (hd rest) = None)"
  then show "file_sort_key dv f = decimal_value vs"
    using file_sort_key_first_numeral by blast
qed

theorem merge_order_witness:
  "has_numbering ascii_digit [ustr ''ch1'', ustr ''ch3'', ustr ''ch2''] \<and>
   sorted_files ascii_digit [ustr ''ch1'', ustr ''ch3'', ustr ''ch2'']
     = [ustr ''ch1'', ustr ''ch2'', ustr ''ch3''] \<and>
   sorted (map (file_sort_key ascii_digit)
     (sorted_files ascii_digit [ustr ''ch1'', ustr ''ch3'', ustr ''ch2''])) \<and>
   \<not> has_numbering ascii_digit [ustr ''intro'', ustr ''body'', ustr ''afterword''] \<and>
   sorted_files ascii_digit [ustr ''intro'', ustr ''body'', ustr ''afterword'']
     = [ustr ''intro'', ustr ''body'', ustr ''afterword''] \<and>
   search_digits ascii_digit (basename (ustr ''intro'')) = None \<and>
   file_sort_key ascii_digit (ustr ''intro'') = 0 \<and>
   file_sort_key ascii_digit (ustr ''out/ch10_v2_summary.md'') = 10 \<and>
   sorted_files ascii_digit
     [ustr ''out/ch10_v2_summary.md'', ustr ''out/ch2_summary.md'', ustr ''out/intro.md'']
     = [ustr ''out/intro.md'', ustr ''out/ch2_summary.md'', ustr ''out/ch10_v2_summary.md'']"
proof -
  have h1: "has_numbering ascii_digit [ustr ''ch1'', ustr ''ch3'', ustr ''ch2'']"
    by (simp add: has_numbering_def basename_def ustr_def ascii_digit_def)
  have h2: "\<not> has_numbering ascii_digit [ustr ''intro'', ustr ''body'', ustr ''afterword'']"
    by (simp add: has_numbering_def basename_def ustr_def ascii_digit_def)
  have h3: "search_digits ascii_digit (basename (ustr ''intro'')) = None"
    by (simp add: basename_def ustr_def ascii_digit_def)
  have e: "sorted_files ascii_digit [ustr ''ch1'', ustr ''ch3'', ustr ''ch2'']
     = [ustr ''ch1'', ustr ''ch2'', ustr ''ch3'']"
    by (simp add: sorted_files_def py_sorted_def has_numbering_def file_sort_key_def
        basename_def ustr_def ascii_digit_def int_of_digits_def)
  have e10: "sorted_files ascii_digit
     [ustr ''out/ch10_v2_summary.md'', ustr ''out/ch2_summary.md'', ustr ''out/intro.md'']
     = [ustr ''out/intro.md'', ustr ''out/ch2_summary.md'', ustr ''out/ch10_v2_summary.md'']"
    by (simp add: sorted_files_def py_sorted_def has_numbering_def file_sort_key_def
        basename_def ustr_def ascii_digit_def int_of_digits_def)
  have b10: "basename (ustr ''out/ch10_v2_summary.md'')
               = ustr ''ch'' @ ustr ''10'' @ ustr ''_v2_summary.md''"
    by (simp add: basename_def ustr_def)
  have p10: "\<forall>c \<in> set (ustr ''ch''). ascii_digit c = None"
    by (simp add: ustr_def ascii_digit_def)
  have d10: "map ascii_digit (ustr ''10'') = map Some [1, 0]"
    by (simp add: ustr_def ascii_digit_def)
  have r10: "ustr ''_v2_summary.md'' = [] \<or> ascii_digit (hd (ustr ''_v2_summary.md'')) = None"
    by (simp add: ustr_def ascii_digit_def)
  have v10: "decimal_value [1, 0] = 10"
    by (simp add: decimal_value_def upt_rec)
  from merge_order [of ascii_digit "[ustr ''ch1'', ustr ''ch3'', ustr ''ch2'']"] h1
  have a: "sorted (map (file_sort_key ascii_digit)
     (sorted_files ascii_digit [ustr ''ch1'', ustr ''ch3'', ustr ''ch2'']))" by blast
  from merge_order [of ascii_digit "[ustr ''intro'', ustr ''body'', ustr ''afterword'']"] h2 h3
  have b: "sorted_files ascii_digit [ustr ''intro'', ustr ''body'', ustr ''afterword'']
     = [ustr ''intro'', ustr ''body'', ustr ''afterword'']"
    and c: "file_sort_key ascii_digit (ustr ''intro'') = 0" by blast+
  from merge_order [of ascii_digit "[]"]
  have "\<forall>f pre ds rest vs.
      basename f = pre @ ds @ rest \<and> (\<forall>c \<in> set pre. ascii_digit c = None) \<and>
      vs \<noteq> [] \<and> map ascii_digit ds = map Some vs \<and> (rest = [] \<or> ascii_digit (hd rest) = None)
      \<longrightarrow> file_sort_key ascii_digit f = decimal_value vs" by blast
  with b10 p10 d10 r10
  have "file_sort_key ascii_digit (ustr ''out/ch10_v2_summary.md'') = decimal_value [1, 0]"
    by blast
  with v10 have k10: "file_sort_key ascii_digit (ustr ''out/ch10_v2_summary.md'') = 10" by simp
  from h1 e a h2 b h3 c k10 e10 show ?thesis by blast
qed


section \<open>The text normalizer is idempotent\<close>

lemma splitlines_lines_clean:
  "\<forall>l \<in> set (splitlines s). \<forall>c \<in> set l. \<not> is_linebreak c"
proof (induction s rule: splitlines.induct)
  case 1
  then show ?case by simp
next
  case (2 x)
  then show ?case by simp
next
  case (3 x d cs)
  show ?case
  proof (cases "x = 13 \<and> d = 10")
    case True
    with 3 show ?thesis by auto
  next
    case nocrlf: False
    show ?thesis
    proof (cases "is_linebreak x")
      case True
      with nocrlf 3 show ?thesis by auto
    next
      case False
      show ?thesis
      proof (cases "splitlines (d # cs)")
        case Nil
        with nocrlf False show ?thesis by auto
      next
        case (Cons l ls)
        from 3(3) nocrlf False have "\<forall>l \<in> set (splitlines (d # cs)). \<forall>c \<in> set l. \<not> is_linebreak c"
          by blast
        with Cons nocrlf False show ?thesis by auto
      qed
    qed
  qed
qed

lemma set_lstrip: "set (lstrip s) \<subseteq> set s"
  unfolding lstrip_def by (meson set_dropWhileD subsetI)

lemma set_rstrip: "set (rstrip s) \<subseteq> set s"
proof
  fix x assume "x \<in> set (rstrip s)"
  then have "x \<in> set (dropWhile is_space (rev s))" by (simp add: rstrip_def)
  then have "x \<in> set (rev s)" by (rule set_dropWhileD)
  then show "x \<in> set s" by simp
qed

lemma set_strip: "set (strip s) \<subseteq> set s"
  unfolding strip_def using set_lstrip set_rstrip by blast

lemma has_2sp_Cons: "has_2sp s \<Longrightarrow> has_2sp (c # s)"
  by (cases s) simp_all

lemma has_2sp_append_left: "has_2sp s \<Longrightarrow> has_2sp (p @ s)"
  by (induction p) (simp_all add: has_2sp_Cons)

lemma has_2sp_append_right: "has_2sp s \<Longrightarrow> has_2sp (s @ q)"
proof (induction s rule: has_2sp.induct)
  case (1 c d cs)
  then show ?case by auto
qed simp_all

lemma lstrip_decomp: "s = takeWhile is_space s @ lstrip s"
  by (simp add: lstrip_def)

lemma rstrip_decomp: "s = rstrip s @ rev (takeWhile is_space (rev s))"
proof -
  have "rstrip s @ rev (takeWhile is_space (rev s))
          = rev (takeWhile is_space (rev s) @ dropWhile is_space (rev s))"
    by (simp only: rstrip_def rev_append)
  also have "\<dots> = rev (rev s)"
    by (simp only: takeWhile_dropWhile_id)
  finally show ?thesis by simp
qed

lemma has_2sp_strip: "has_2sp (strip s) \<Longrightarrow> has_2sp s"
proof -
  assume h: "has_2sp (strip s)"
  have "lstrip s = strip s @ rev (takeWhile is_space (rev (lstrip s)))"
    unfolding strip_def by (rule rstrip_decomp)
  with h have "has_2sp (lstrip s)" using has_2sp_append_right by metis
  then have "has_2sp (takeWhile is_space s @ lstrip s)" by (rule has_2sp_append_left)
  then show ?thesis using lstrip_decomp [of s] by simp
qed

lemma split_2sp_nonempty: "split_2sp s \<noteq> []"
  by (induction s rule: split_2sp.induct) (auto split: list.splits)

lemma split_2sp_head:
  "split_2sp s = p # ps \<Longrightarrow> p = [] \<or> (s \<noteq> [] \<and> hd p = hd s)"
  by (induction s arbitrary: p ps rule: split_2sp.induct) (auto split: if_splits list.splits)

lemma split_2sp_set: "\<forall>p \<in> set (split_2sp s). set p \<subseteq> set s"
proof (induction s rule: split_2sp.induct)
  case (3 c d cs)
  show ?case
  proof (cases "c = 32 \<and> d = 32")
    case True
    with 3 show ?thesis by auto
  next
    case False
    with 3 have ih: "\<forall>p \<in> set (split_2sp (d # cs)). set p \<subseteq> set (d # cs)" by blast
    show ?thesis
    proof (cases "split_2sp (d # cs)")
      case Nil
      with False show ?thesis by auto
    next
      case (Cons p ps)
      with ih have "set p \<subseteq> set (d # cs)" "\<forall>q \<in> set ps. set q \<subseteq> set (d # cs)" by simp_all
      with Cons False show ?thesis by auto
    qed
  qed
qed simp_all

lemma split_2sp_clean: "\<forall>p \<in> set (split_2sp s). \<not> has_2sp p"
proof (induction s rule: split_2sp.induct)
  case (3 c d cs)
  show ?case
  proof (cases "c = 32 \<and> d = 32")
    case True
    with 3 show ?thesis by auto
  next
    case False
    with 3 have ih: "\<forall>p \<in> set (split_2sp (d # cs)). \<not> has_2sp p" by blast
    show ?thesis
    proof (cases "split_2sp (d # cs)")
      case Nil
      with False show ?thesis by auto
    next
      case (Cons p ps)
      with ih have a: "\<not> has_2sp p" and b: "\<forall>q \<in> set ps. \<not> has_2sp q" by simp_all
      from split_2sp_head [OF Cons] have "p = [] \<or> hd p = d" by auto
      then have "\<not> has_2sp (c # p)"
      proof
        assume "p = []" then show ?thesis by simp
      next
        assume h: "hd p = d"
        show ?thesis
        proof (cases p)
          case Nil then show ?thesis by simp
        next
          case (Cons e p')
          with h have "e = d" by simp
          with Cons a False show ?thesis by auto
        qed
      qed
      with b Cons False show ?thesis by auto
    qed
  qed
qed simp_all

lemma split_2sp_id: "\<not> has_2sp s \<Longrightarrow> split_2sp s = [s]"
proof (induction s rule: split_2sp.induct)
  case (3 c d cs)
  then have "\<not> (c = 32 \<and> d = 32)" "\<not> has_2sp (d # cs)" by auto
  with 3 show ?case by simp
qed simp_all

lemma lstrip_head: "lstrip s = [] \<or> \<not> is_space (hd (lstrip s))"
  unfolding lstrip_def by (metis hd_dropWhile)

lemma lstrip_fix: "t = [] \<or> \<not> is_space (hd t) \<Longrightarrow> lstrip t = t"
  unfolding lstrip_def by (cases t) auto

lemma rstrip_idem: "rstrip (rstrip t) = rstrip t"
  by (simp add: rstrip_def)

lemma rstrip_hd: "rstrip t \<noteq> [] \<Longrightarrow> hd (rstrip t) = hd t"
  using rstrip_decomp [of t] by (metis hd_append2)

lemma strip_idem: "strip (strip s) = strip s"
proof -
  have "rstrip (lstrip s) = [] \<or> \<not> is_space (hd (rstrip (lstrip s)))"
  proof (cases "rstrip (lstrip s) = []")
    case True then show ?thesis by blast
  next
    case False
    then have h: "hd (rstrip (lstrip s)) = hd (lstrip s)" by (rule rstrip_hd)
    from False have "lstrip s \<noteq> []" by (auto simp: rstrip_def)
    with lstrip_head [of s] have "\<not> is_space (hd (lstrip s))" by blast
    with h show ?thesis by simp
  qed
  then have "lstrip (rstrip (lstrip s)) = rstrip (lstrip s)" by (rule lstrip_fix)
  then show ?thesis by (simp add: strip_def rstrip_idem)
qed

lemma splitlines_line:
  "\<forall>x \<in> set l. \<not> is_linebreak x \<Longrightarrow> splitlines (l @ 10 # r) = l # splitlines r"
proof (induction l)
  case Nil
  have lb: "is_linebreak 10" by (simp add: is_linebreak_def)
  show ?case
  proof (cases r)
    case Nil with lb show ?thesis by simp
  next
    case (Cons d cs) with lb show ?thesis by simp
  qed
next
  case (Cons c l)
  then have nc: "\<not> is_linebreak c" and ih: "splitlines (l @ 10 # r) = l # splitlines r"
    by simp_all
  from nc have c13: "c \<noteq> 13" by (auto simp: is_linebreak_def)
  obtain d cs where e: "l @ 10 # r = d # cs" by (cases "l @ 10 # r") auto
  have "splitlines (c # d # cs) = (c # l) # splitlines r"
    using nc c13 ih e by simp
  with e show ?case by simp
qed

lemma splitlines_single:
  "l \<noteq> [] \<Longrightarrow> \<forall>x \<in> set l. \<not> is_linebreak x \<Longrightarrow> splitlines l = [l]"
proof (induction l)
  case Nil then show ?case by simp
next
  case (Cons c l)
  then have nc: "\<not> is_linebreak c" by simp
  then have c13: "c \<noteq> 13" by (auto simp: is_linebreak_def)
  show ?case
  proof (cases l)
    case Nil with nc show ?thesis by simp
  next
    case (Cons d cs)
    with Cons.IH Cons.prems have "splitlines (d # cs) = [d # cs]" by simp
    with Cons nc c13 show ?thesis by simp
  qed
qed

lemma splitlines_join:
  "\<forall>c \<in> set cs. c \<noteq> [] \<and> (\<forall>x \<in> set c. \<not> is_linebreak x) \<Longrightarrow>
     splitlines (join [10] cs) = cs"
proof (induction "[10::nat]" cs rule: join.induct)
  case 1 show ?case by simp
next
  case (2 x) then show ?case by (simp add: splitlines_single)
next
  case (3 x y ys)
  then have "splitlines (join [10] (y # ys)) = y # ys" by simp
  moreover from 3 have "\<forall>a \<in> set x. \<not> is_linebreak a" by simp
  ultimately show ?case using splitlines_line [of x "join [10] (y # ys)"] by simp
qed

lemma chunks_of_clean:
  assumes "c \<in> set (chunks_of t)"
  shows "c \<noteq> [] \<and> (\<forall>x \<in> set c. \<not> is_linebreak x) \<and> strip c = c \<and> \<not> has_2sp c"
proof -
  from assms obtain l p where l: "l \<in> set (splitlines t)"
    and p: "p \<in> set (split_2sp (strip l))" and c: "c = strip p" and ne: "c \<noteq> []"
    by (auto simp: chunks_of_def)
  have "set c \<subseteq> set l"
    using c set_strip [of p] split_2sp_set [of "strip l"] p set_strip [of l] by blast
  with l splitlines_lines_clean [of t] have lb: "\<forall>x \<in> set c. \<not> is_linebreak x" by blast
  have st: "strip c = c" using c by (simp add: strip_idem)
  from p split_2sp_clean [of "strip l"] have "\<not> has_2sp p" by blast
  with c has_2sp_strip [of p] have "\<not> has_2sp c" by blast
  with ne lb st show ?thesis by blast
qed

lemma concat_split_2sp_id:
  "\<forall>c \<in> set cs. \<not> has_2sp c \<Longrightarrow> concat (map split_2sp cs) = cs"
  by (induction cs) (simp_all add: split_2sp_id)

lemma chunks_of_join:
  assumes "\<forall>c \<in> set cs. c \<noteq> [] \<and> (\<forall>x \<in> set c. \<not> is_linebreak x) \<and> strip c = c \<and> \<not> has_2sp c"
  shows "chunks_of (join [10] cs) = cs"
proof -
  from assms have a: "splitlines (join [10] cs) = cs" by (intro splitlines_join) blast
  from assms have b: "map strip cs = cs" by (intro map_idI) blast
  from assms have d: "concat (map split_2sp cs) = cs" by (intro concat_split_2sp_id) blast
  from assms have e: "filter (\<lambda>chunk. chunk \<noteq> []) cs = cs" by (intro filter_True) blast
  show ?thesis unfolding chunks_of_def by (simp only: a b d e)
qed


text \<open>
  Claim C5. Normalizing a text that is already the output of the normalizer returns it
  unchanged: its chunks are non-empty, trimmed, free of line boundaries and free of double
  spaces, so splitting at the newlines gives the same chunks back.
\<close>

theorem normalize_text_idempotent:
  "normalize_text (normalize_text text) = normalize_text text"
proof -
  have "chunks_of (join [10] (chunks_of text)) = chunks_of text"
    by (rule chunks_of_join) (blast dest: chunks_of_clean)
  then show ?thesis by (simp add: normalize_text_def)
qed


theorem normalize_text_idempotent_witness:
  "normalize_text (ustr ''  a   b    c \<newline>\<newline> d  '') = ustr ''a\<newline>b\<newline>c\<newline>d'' \<and>
   normalize_text (normalize_text (ustr ''  a   b    c \<newline>\<newline> d  ''))
     = ustr ''a\<newline>b\<newline>c\<newline>d''"
proof -
  have e: "normalize_text (ustr ''  a   b    c \<newline>\<newline> d  '') = ustr ''a\<newline>b\<newline>c\<newline>d''"
    by (simp add: normalize_text_def chunks_of_def ustr_def strip_def lstrip_def rstrip_def
        is_space_def is_linebreak_def)
  with normalize_text_idempotent [of "ustr ''  a   b    c \<newline>\<newline> d  ''"]
  show ?thesis by simp
qed


section \<open>The pattern detector follows its specification\<close>

lemma pattern_chapters_dropWhile:
  "pattern_chapters cm (dropWhile (\<lambda>l. \<not> cm l) ls) = pattern_chapters cm ls"
  by (induction ls) simp_all

lemma regex_loop_open:
  assumes "\<forall>l. cm l \<longrightarrow> strip l \<noteq> []" and "t \<noteq> []"
  shows "regex_loop cm ls chapters (Some t) cur =
           chapters @ \<lparr>title = t, content = join [10] (cur @ takeWhile (\<lambda>l. \<not> cm l) ls),
                        href = None, level = None\<rparr> # pattern_chapters cm ls"
  using assms(2)
proof (induction ls arbitrary: chapters t cur)
  case Nil
  then show ?case by (simp add: save_current_def)
next
  case (Cons line ls)
  show ?case
  proof (cases "cm line")
    case True
    with assms(1) have ne: "strip line \<noteq> []" by blast
    from True have "regex_loop cm (line # ls) chapters (Some t) cur
        = regex_loop cm ls (save_current chapters (Some t) cur) (Some (strip line)) []"
      by simp
    also have "\<dots> = save_current chapters (Some t) cur
         @ \<lparr>title = strip line, content = join [10] ([] @ takeWhile (\<lambda>l. \<not> cm l) ls),
              href = None, level = None\<rparr> # pattern_chapters cm ls"
      by (rule Cons.IH [OF ne])
    finally show ?thesis using True Cons.prems by (simp add: save_current_def)
  next
    case False
    from Cons.prems have "truthy (Some t)" by (simp add: truthy_def)
    with False have "regex_loop cm (line # ls) chapters (Some t) cur
        = regex_loop cm ls chapters (Some t) (cur @ [line])" by simp
    also have "\<dots> = chapters
         @ \<lparr>title = t, content = join [10] ((cur @ [line]) @ takeWhile (\<lambda>l. \<not> cm l) ls),
              href = None, level = None\<rparr> # pattern_chapters cm ls"
      by (rule Cons.IH [OF Cons.prems])
    finally show ?thesis using False by simp
  qed
qed

lemma regex_loop_start:
  assumes "\<forall>l. cm l \<longrightarrow> strip l \<noteq> []"
  shows "regex_loop cm ls chapters None cur = chapters @ pattern_chapters cm ls"
proof (induction ls arbitrary: cur)
  case Nil
  show ?case by (simp add: save_current_def)
next
  case (Cons line ls)
  show ?case
  proof (cases "cm line")
    case True
    with assms have ne: "strip line \<noteq> []" by blast
    from True show ?thesis
      by (simp add: regex_loop_open [OF assms ne] save_current_def)
  next
    case False
    with Cons show ?thesis by (simp add: truthy_def)
  qed
qed

lemma pattern_chapters_titles:
  "map title (pattern_chapters cm ls) = map strip (filter cm ls)"
  by (induction ls) simp_all

lemma pattern_chapters_none:
  "filter cm ls = [] \<Longrightarrow> pattern_chapters cm ls = []"
  by (induction ls) (simp_all split: if_splits)

text \<open>
  Claim C8. When every line that the chapter-heading grammar matches has a non-empty
  trimmed text (each alternative of \<^verbatim>\<open>chapter_regex\<close> holds a marker token, so the
  expression of the source has this property), the pattern detector returns one chapter
  for each matching line, in line order, titled with the line trimmed and holding the
  following non-matching lines joined by newlines; the lines before the first matching
  line are in no chapter, two matching lines in a row give a chapter with empty content,
  and without a matching line the result is the empty list.
\<close>

theorem split_by_regex_chapters:
  assumes "\<forall>l. cm l \<longrightarrow> strip l \<noteq> []"
  shows "split_by_regex cm text = pattern_chapters cm (split_on 10 text) \<and>
         map title (split_by_regex cm text) = map strip (filter cm (split_on 10 text)) \<and>
         (filter cm (split_on 10 text) = [] \<longrightarrow> split_by_regex cm text = [])"
proof -
  have e: "split_by_regex cm text = pattern_chapters cm (split_on 10 text)"
    by (simp add: split_by_regex_def regex_loop_start [OF assms])
  then show ?thesis
    by (simp add: pattern_chapters_titles pattern_chapters_none)
qed

lemma example_titles_nonempty: "\<forall>l. example_titles l \<longrightarrow> strip l \<noteq> []"
  by (auto simp: example_titles_def ustr_def strip_def lstrip_def rstrip_def is_space_def)

theorem split_by_regex_chapters_witness:
  "split_by_regex example_titles
     (ustr ''preface\<newline>Chapter 1\<newline>Arrival\<newline>more\<newline>Chapter 2\<newline>Chapter 1\<newline>end'')
   = [\<lparr>title = ustr ''Chapter 1'', content = ustr ''Arrival\<newline>more'', href = None, level = None\<rparr>,
      \<lparr>title = ustr ''Chapter 2'', content = [], href = None, level = None\<rparr>,
      \<lparr>title = ustr ''Chapter 1'', content = ustr ''end'', href = None, level = None\<rparr>] \<and>
   split_by_regex example_titles (ustr ''no heading\<newline>at all'') = []"
proof -
  have p1: "pattern_chapters example_titles
     (split_on 10 (ustr ''preface\<newline>Chapter 1\<newline>Arrival\<newline>more\<newline>Chapter 2\<newline>Chapter 1\<newline>end''))
   = [\<lparr>title = ustr ''Chapter 1'', content = ustr ''Arrival\<newline>more'', href = None, level = None\<rparr>,
      \<lparr>title = ustr ''Chapter 2'', content = [], href = None, level = None\<rparr>,
      \<lparr>title = ustr ''Chapter 1'', content = ustr ''end'', href = None, level = None\<rparr>]"
    by (simp add: example_titles_def ustr_def strip_def lstrip_def rstrip_def is_space_def)
  have p2: "filter example_titles (split_on 10 (ustr ''no heading\<newline>at all'')) = []"
    by (simp add: example_titles_def ustr_def)
  from split_by_regex_chapters [OF example_titles_nonempty] p1 p2
  show ?thesis by metis
qed


section \<open>The structural detector\<close>

lemmas example_eval = ustr_def strip_def lstrip_def rstrip_def is_space_def is_linebreak_def
  normalize_text_def chunks_of_def is_chapter_node_def no_regex_def

lemma xpath_loop_raises: "xpath_loop rx nodes [] = []"
  by (cases nodes) (simp_all add: text_content_def)

lemma split_by_xpath_empty: "split_by_xpath rx tree = []"
  by (cases tree) (simp_all add: split_by_xpath_def xpath_loop_raises)

text \<open>
  Claim C3 holds of the detector the source means to write, not of the one it writes. On a
  document with one heading node followed by a paragraph the claim asks for one chapter,
  titled with the text of the heading and holding the text of the paragraph; the call of
  \<^verbatim>\<open>text_content()\<close> at line 97 raises on the heading node, and \<^verbatim>\<open>split_by_xpath\<close> returns
  the empty list.
\<close>

theorem split_by_xpath_heading_lost:
  "length (chapter_nodes no_regex heading_doc) = 1 \<and>
   heading_chapters no_regex heading_doc
     = [\<lparr>title = ustr ''One'', content = ustr ''text'', href = None, level = None\<rparr>] \<and>
   split_by_xpath no_regex (Some heading_doc) = []"
proof -
  have n: "chapter_nodes no_regex heading_doc
     = [(Element (ustr ''div'') (Some (ustr ''chapter'')) (ustr ''One'') [] [],
         [Element (ustr ''p'') None (ustr ''text'') [] []])]"
    by (simp add: chapter_nodes_def heading_doc_def is_chapter_node_def no_regex_def ustr_def)
  have h: "heading_chapters no_regex heading_doc
     = [\<lparr>title = ustr ''One'', content = ustr ''text'', href = None, level = None\<rparr>]"
    unfolding heading_chapters_def n by (simp add: example_eval)
  from n h split_by_xpath_empty show ?thesis by simp
qed


section \<open>The fallback chain of the automatic mode\<close>

text \<open>
  Claim C2. With a method name that is none of \<^verbatim>\<open>xpath\<close>, \<^verbatim>\<open>regex\<close> and \<^verbatim>\<open>toc\<close>,
  \<^verbatim>\<open>split_into_chapters\<close> returns the chapters of the structural detector when there are
  some, else those of the pattern detector when there are some, else those of the
  navigation detector, each list unchanged; when the structural detector finds none and
  the pattern detector some, the result is the list of the pattern detector.
\<close>

theorem split_into_chapters_auto:
  assumes "detection_method \<noteq> ustr ''xpath''" and "detection_method \<noteq> ustr ''regex''"
    and "detection_method \<noteq> ustr ''toc''"
  shows "split_into_chapters rx cm bk detection_method =
           (if xpath_items rx bk \<noteq> [] then xpath_items rx bk
            else if split_by_regex cm (extract_all_text bk) \<noteq> []
                 then split_by_regex cm (extract_all_text bk)
            else get_toc_chapters cm bk False) \<and>
         (xpath_items rx bk = [] \<and> split_by_regex cm (extract_all_text bk) \<noteq> [] \<longrightarrow>
            split_into_chapters rx cm bk detection_method
              = split_by_regex cm (extract_all_text bk))"
  using assms
  by (simp add: split_into_chapters_def split_by_xpath_into_def split_by_regex_into_def
      split_by_toc_into_def Let_def)

lemma pattern_only_xpath: "xpath_items no_regex pattern_only_book = []"
  by (simp add: xpath_items_def split_by_xpath_empty)

lemma pattern_only_text: "extract_all_text pattern_only_book = ustr ''Chapter 1\<newline>body''"
  by (simp add: extract_all_text_def extract_text_from_html_def pattern_only_book_def example_eval)

lemma pattern_only_regex:
  "split_by_regex example_titles (ustr ''Chapter 1\<newline>body'')
     = [\<lparr>title = ustr ''Chapter 1'', content = ustr ''body'', href = None, level = None\<rparr>]"
  by (simp add: split_by_regex_def save_current_def truthy_def example_titles_def example_eval)

theorem split_into_chapters_auto_witness:
  "ustr ''auto'' \<noteq> ustr ''xpath'' \<and> ustr ''auto'' \<noteq> ustr ''regex'' \<and> ustr ''auto'' \<noteq> ustr ''toc'' \<and>
   xpath_items no_regex pattern_only_book = [] \<and>
   split_into_chapters no_regex example_titles pattern_only_book (ustr ''auto'')
     = [\<lparr>title = ustr ''Chapter 1'', content = ustr ''body'', href = None, level = None\<rparr>]"
proof -
  have a: "ustr ''auto'' \<noteq> ustr ''xpath''" and b: "ustr ''auto'' \<noteq> ustr ''regex''"
    and c: "ustr ''auto'' \<noteq> ustr ''toc''"
    by (simp_all add: ustr_def)
  from split_into_chapters_auto [OF a b c, of no_regex example_titles pattern_only_book]
  have "split_into_chapters no_regex example_titles pattern_only_book (ustr ''auto'')
     = [\<lparr>title = ustr ''Chapter 1'', content = ustr ''body'', href = None, level = None\<rparr>]"
    by (simp add: pattern_only_xpath pattern_only_text pattern_only_regex)
  with a b c pattern_only_xpath show ?thesis by simp
qed


section \<open>The keys of the chapters\<close>

lemma add_attributes_length: "length (add_attributes chapters) = length chapters"
  by (simp add: add_attributes_def)

lemma add_attributes_nth:
  assumes "i < length chapters"
  shows "add_attributes chapters ! i =
           (chapters ! i)\<lparr>href := (case href (chapters ! i) of
                                       None \<Rightarrow> Some (chapter_href i) | Some h \<Rightarrow> Some h),
                            level := (case level (chapters ! i) of
                                       None \<Rightarrow> Some 0 | Some l \<Rightarrow> Some l)\<rparr>"
  using assms by (simp add: add_attributes_def nth_enumerate_eq)

text \<open>
  Claim C4, as amended. Every chapter that the enumeration for the user's choice
  (\<^verbatim>\<open>get_all_chapters\<close>) returns has an \<^verbatim>\<open>href\<close> and a \<^verbatim>\<open>level\<close>: those of the detector
  when it set them, else \<^verbatim>\<open>chapter_<i>.html\<close> for the position \<open>i\<close> of the chapter and level
  0; title and content are those of the detector.
\<close>

theorem get_all_chapters_attributes:
  "length (get_all_chapters rx cm bk m) = length (choose_chapters rx cm bk m) \<and>
   (\<forall>i < length (choose_chapters rx cm bk m).
      href (get_all_chapters rx cm bk m ! i)
        = Some (case href (choose_chapters rx cm bk m ! i) of
                  None \<Rightarrow> chapter_href i | Some h \<Rightarrow> h) \<and>
      level (get_all_chapters rx cm bk m ! i)
        = Some (case level (choose_chapters rx cm bk m ! i) of None \<Rightarrow> 0 | Some l \<Rightarrow> l) \<and>
      title (get_all_chapters rx cm bk m ! i) = title (choose_chapters rx cm bk m ! i) \<and>
      content (get_all_chapters rx cm bk m ! i) = content (choose_chapters rx cm bk m ! i)) \<and>
   (\<forall>c \<in> set (get_all_chapters rx cm bk m). href c \<noteq> None \<and> level c \<noteq> None)"
proof (intro conjI allI impI ballI)
  show "length (get_all_chapters rx cm bk m) = length (choose_chapters rx cm bk m)"
    by (simp add: get_all_chapters_def add_attributes_length)
next
  fix i assume "i < length (choose_chapters rx cm bk m)"
  then show "href (get_all_chapters rx cm bk m ! i)
        = Some (case href (choose_chapters rx cm bk m ! i) of
                  None \<Rightarrow> chapter_href i | Some h \<Rightarrow> h)"
    by (simp add: get_all_chapters_def add_attributes_nth split: option.splits)
next
  fix i assume "i < length (choose_chapters rx cm bk m)"
  then show "level (get_all_chapters rx cm bk m ! i)
        = Some (case level (choose_chapters rx cm bk m ! i) of None \<Rightarrow> 0 | Some l \<Rightarrow> l)"
    by (simp add: get_all_chapters_def add_attributes_nth split: option.splits)
next
  fix i assume "i < length (choose_chapters rx cm bk m)"
  then show "title (get_all_chapters rx cm bk m ! i) = title (choose_chapters rx cm bk m ! i)"
    by (simp add: get_all_chapters_def add_attributes_nth)
next
  fix i assume "i < length (choose_chapters rx cm bk m)"
  then show "content (get_all_chapters rx cm bk m ! i) = content (choose_chapters rx cm bk m ! i)"
    by (simp add: get_all_chapters_def add_attributes_nth)
next
  fix c assume "c \<in> set (get_all_chapters rx cm bk m)"
  then obtain i where i: "i < length (choose_chapters rx cm bk m)"
    and c: "c = add_attributes (choose_chapters rx cm bk m) ! i"
    by (auto simp: get_all_chapters_def in_set_conv_nth add_attributes_length)
  from i c show "href c \<noteq> None" by (simp add: add_attributes_nth split: option.splits)
  from i c show "level c \<noteq> None" by (simp add: add_attributes_nth split: option.splits)
qed

lemma method_names_distinct:
  "ustr ''regex'' \<noteq> ustr ''xpath''" "ustr ''toc'' \<noteq> ustr ''xpath''"
  "ustr ''toc'' \<noteq> ustr ''regex''" "ustr ''xpath'' \<noteq> ustr ''regex''"
  "ustr ''xpath'' \<noteq> ustr ''toc''" "ustr ''regex'' \<noteq> ustr ''toc''"
  by (simp_all add: ustr_def)

lemma pattern_only_choose_regex:
  "choose_chapters no_regex example_titles pattern_only_book (ustr ''regex'')
     = [\<lparr>title = ustr ''Chapter 1'', content = ustr ''body'', href = None, level = None\<rparr>]"
  by (simp add: choose_chapters_def requested_chapters_def pattern_only_text pattern_only_regex
      method_names_distinct)

lemma chapter_href_0: "chapter_href 0 = ustr ''chapter_0.html''"
  by (simp add: chapter_href_def str_nat.simps ustr_def)

theorem get_all_chapters_attributes_witness:
  "length (get_all_chapters no_regex example_titles pattern_only_book (ustr ''regex'')) = 1 \<and>
   href (get_all_chapters no_regex example_titles pattern_only_book (ustr ''regex'') ! 0)
     = Some (ustr ''chapter_0.html'') \<and>
   level (get_all_chapters no_regex example_titles pattern_only_book (ustr ''regex'') ! 0)
     = Some 0 \<and>
   title (get_all_chapters no_regex example_titles pattern_only_book (ustr ''regex'') ! 0)
     = ustr ''Chapter 1''"
  using get_all_chapters_attributes
    [of no_regex example_titles pattern_only_book "ustr ''regex''"]
  by (simp add: pattern_only_choose_regex chapter_href_0)

text \<open>
  Claim C4 as stated fails for \<^verbatim>\<open>split_into_chapters\<close>, which returns the records of the
  detector as they are: with the pattern detector they have neither \<^verbatim>\<open>href\<close> nor
  \<^verbatim>\<open>level\<close>.
\<close>

theorem split_into_chapters_href_counterexample:
  "split_into_chapters no_regex example_titles pattern_only_book (ustr ''regex'')
     = [\<lparr>title = ustr ''Chapter 1'', content = ustr ''body'', href = None, level = None\<rparr>] \<and>
   href (hd (split_into_chapters no_regex example_titles pattern_only_book (ustr ''regex'')))
     = None \<and>
   level (hd (split_into_chapters no_regex example_titles pattern_only_book (ustr ''regex'')))
     = None"
  by (simp add: split_into_chapters_def split_by_regex_into_def pattern_only_text
      pattern_only_regex method_names_distinct)


section \<open>The fallback chain of the enumeration\<close>

lemma enumerate_empty: "enumerate n xs = [] \<longleftrightarrow> xs = []"
  by (cases xs) simp_all

lemma get_toc_chapters_all_empty:
  "get_toc_chapters cm bk True = [] \<longleftrightarrow>
     toc_traversal bk = [] \<and> split_by_regex cm (extract_all_text bk) = []"
  by (auto simp: get_toc_chapters_def Let_def enumerate_empty)

lemma choose_chapters_empty:
  "choose_chapters rx cm bk m = [] \<longleftrightarrow>
     requested_chapters rx cm bk m = [] \<and> toc_traversal bk = [] \<and>
     split_by_regex cm (extract_all_text bk) = []"
  by (auto simp: choose_chapters_def Let_def get_toc_chapters_all_empty)

text \<open>
  Claim C9, as amended. When the requested method gives no chapter, \<^verbatim>\<open>get_all_chapters\<close>
  takes the chapters of the table of contents (with the pattern detector behind it), and
  the chapters of the pattern detector when there are none either. Its result is empty
  exactly when the requested method, the traversal of the table of contents and the
  pattern detector all give no chapter.
\<close>

theorem get_all_chapters_fallback:
  "get_all_chapters rx cm bk m =
     add_attributes
       (if requested_chapters rx cm bk m \<noteq> [] then requested_chapters rx cm bk m
        else if get_toc_chapters cm bk True \<noteq> [] then get_toc_chapters cm bk True
        else split_by_regex cm (extract_all_text bk)) \<and>
   (get_all_chapters rx cm bk m = [] \<longleftrightarrow>
      requested_chapters rx cm bk m = [] \<and> toc_traversal bk = [] \<and>
      split_by_regex cm (extract_all_text bk) = [])"
proof
  show "get_all_chapters rx cm bk m =
     add_attributes
       (if requested_chapters rx cm bk m \<noteq> [] then requested_chapters rx cm bk m
        else if get_toc_chapters cm bk True \<noteq> [] then get_toc_chapters cm bk True
        else split_by_regex cm (extract_all_text bk))"
    by (simp add: get_all_chapters_def choose_chapters_def Let_def)
next
  have "get_all_chapters rx cm bk m = [] \<longleftrightarrow> choose_chapters rx cm bk m = []"
    using add_attributes_length [of "choose_chapters rx cm bk m"]
    by (simp add: get_all_chapters_def) (metis length_0_conv)
  then show "get_all_chapters rx cm bk m = [] \<longleftrightarrow>
      requested_chapters rx cm bk m = [] \<and> toc_traversal bk = [] \<and>
      split_by_regex cm (extract_all_text bk) = []"
    by (simp add: choose_chapters_empty)
qed

text \<open>
  Claim C9 as stated fails: for a book without documents and without table of contents
  the enumeration is empty, whatever the method.
\<close>

theorem get_all_chapters_empty_counterexample:
  "get_all_chapters no_regex example_titles empty_book (ustr ''toc'') = [] \<and>
   get_all_chapters no_regex example_titles empty_book (ustr ''xpath'') = [] \<and>
   get_all_chapters no_regex example_titles empty_book (ustr ''regex'') = []"
  by (simp add: get_all_chapters_def choose_chapters_def requested_chapters_def
      get_toc_chapters_def toc_traversal_def xpath_items_def extract_all_text_def
      empty_book_def split_by_regex_def save_current_def add_attributes_def truthy_def
      example_titles_def ustr_def)

lemma pattern_only_toc:
  "toc_traversal pattern_only_book
     = [\<lparr>title = ustr ''Start'', content = ustr ''Chapter 1\<newline>body'',
         href = Some (ustr ''a.xhtml''), level = Some 0\<rparr>]"
  by (simp add: toc_traversal_def pattern_only_book_def get_item_with_href_def
      extract_text_from_html_def example_eval)

theorem get_all_chapters_fallback_witness:
  "requested_chapters no_regex example_titles pattern_only_book (ustr ''xpath'') = [] \<and>
   get_all_chapters no_regex example_titles pattern_only_book (ustr ''xpath'')
     = [\<lparr>title = ustr ''Start'', content = ustr ''Chapter 1\<newline>body'',
         href = Some (ustr ''a.xhtml''), level = Some 0\<rparr>]"
proof -
  have r: "requested_chapters no_regex example_titles pattern_only_book (ustr ''xpath'') = []"
    by (simp add: requested_chapters_def pattern_only_xpath)
  have t: "get_toc_chapters example_titles pattern_only_book True
     = [\<lparr>title = ustr ''Start'', content = ustr ''Chapter 1\<newline>body'',
         href = Some (ustr ''a.xhtml''), level = Some 0\<rparr>]"
    by (simp add: get_toc_chapters_def pattern_only_toc)
  from get_all_chapters_fallback [of no_regex example_titles pattern_only_book "ustr ''xpath''"]
  have "get_all_chapters no_regex example_titles pattern_only_book (ustr ''xpath'')
     = add_attributes [\<lparr>title = ustr ''Start'', content = ustr ''Chapter 1\<newline>body'',
         href = Some (ustr ''a.xhtml''), level = Some 0\<rparr>]"
    by (simp add: r t)
  with r show ?thesis by (simp add: add_attributes_def)
qed


section \<open>The merged document, section by section\<close>

lemma sections_loop_from:
  "sections_loop rd i files merged =
     merged @ concat (map (\<lambda>(k, f). case rd f of
                                      Inr stored \<Rightarrow> readable_section (k + 1) f stored
                                    | Inl e \<Rightarrow> failed_section (k + 1) f e)
                        (enumerate i files))"
proof (induction files arbitrary: i merged)
  case Nil
  show ?case by simp
next
  case (Cons f files)
  show ?case
    by (cases "rd f")
      (simp_all add: Cons.IH readable_section_def failed_section_def content_lines_def)
qed

lemma sections_loop_sections:
  "sections_loop rd 0 files merged = merged @ concat (sections rd files)"
  by (simp add: sections_loop_from sections_def)

lemma index_loop_from:
  "index_loop i files merged =
     merged @ concat (map (\<lambda>(k, f). index_entry (k + 1) f) (enumerate i files))"
proof (induction files arbitrary: i merged)
  case Nil
  show ?case by simp
next
  case (Cons f files)
  show ?case by (simp add: Cons.IH index_entry_def)
qed

lemma merged_document_parts:
  "merged_document rd files =
     document_head @ concat (index_entries files) @ ustr ''\<newline>'' @ concat (sections rd files)"
  by (simp add: merged_document_def sections_loop_sections index_loop_from index_entries_def
      document_head_def)

lemma sections_length: "length (sections rd files) = length files"
  by (simp add: sections_def)

lemma sections_nth:
  "k < length files \<Longrightarrow>
     sections rd files ! k =
       (case rd (files ! k) of
          Inr stored \<Rightarrow> readable_section (k + 1) (files ! k) stored
        | Inl e \<Rightarrow> failed_section (k + 1) (files ! k) e)"
  by (simp add: sections_def nth_enumerate_eq)

lemma merge_summaries_writes:
  assumes "heap st summary_files = Some fs" and "open_for_write env output_path = None"
  shows "snd (merge_summaries dv env st summary_files output_path) = Inr True"
    and "written (fst (merge_summaries dv env st summary_files output_path)) output_path
           = Some (merged_document (read_text env) (sorted_files dv fs))"
  using assms
  by (simp_all add: merge_summaries_def new_list_def sorted_files_def Let_def)


text \<open>
  Claim C7. When the output can be opened, \<^verbatim>\<open>merge_summaries\<close> returns \<^verbatim>\<open>True\<close> whatever
  the outcome of reading each summary. The document it writes has one section for each
  file, in the resolved order; the section of a file that cannot be read stands at the
  position of the file, carries its number, and holds the note with the message of the
  exception in place of the body; the sections of the other files are the usual ones.
\<close>

theorem merge_read_failure:
  assumes "heap st summary_files = Some fs" and "open_for_write env output_path = None"
  shows "snd (merge_summaries dv env st summary_files output_path) = Inr True \<and>
         written (fst (merge_summaries dv env st summary_files output_path)) output_path
           = Some (document_head @ concat (index_entries (sorted_files dv fs)) @ ustr ''\<newline>''
                     @ concat (sections (read_text env) (sorted_files dv fs))) \<and>
         length (sections (read_text env) (sorted_files dv fs)) = length fs \<and>
         (\<forall>k < length fs.
            sections (read_text env) (sorted_files dv fs) ! k =
              (case read_text env (sorted_files dv fs ! k) of
                 Inl e \<Rightarrow> failed_section (k + 1) (sorted_files dv fs ! k) e
               | Inr stored \<Rightarrow> readable_section (k + 1) (sorted_files dv fs ! k) stored))"
proof -
  have len: "length (sorted_files dv fs) = length fs"
    by (simp add: sorted_files_def py_sorted_def)
  have nth: "\<forall>k < length fs.
            sections (read_text env) (sorted_files dv fs) ! k =
              (case read_text env (sorted_files dv fs ! k) of
                 Inl e \<Rightarrow> failed_section (k + 1) (sorted_files dv fs ! k) e
               | Inr stored \<Rightarrow> readable_section (k + 1) (sorted_files dv fs ! k) stored)"
    using len by (auto simp: sections_nth split: sum.splits)
  from merge_summaries_writes [OF assms] merged_document_parts len nth
  show ?thesis by (simp add: sections_length)
qed

lemma example_sorted:
  "sorted_files ascii_digit [ustr ''out/ch2_summary.md'', ustr ''out/ch1_summary.md'']
     = [ustr ''out/ch1_summary.md'', ustr ''out/ch2_summary.md'']"
  by (simp add: sorted_files_def py_sorted_def has_numbering_def file_sort_key_def
      basename_def ustr_def ascii_digit_def int_of_digits_def)

lemma example_failed_section:
  "failed_section 2 (ustr ''out/ch2_summary.md'') (ustr ''No such file'')
     = ustr ''## 2. ch2_summary.md\<newline>\<newline>'' @ read_failed_note @ ustr '': No such file\<newline>\<newline>''"
  by (simp add: failed_section_def basename_def str_nat.simps ustr_def)

theorem merge_read_failure_witness:
  "snd (merge_summaries ascii_digit example_env example_state 0 (ustr ''out/summary.md''))
     = Inr True \<and>
   length (sections (read_text example_env)
     (sorted_files ascii_digit [ustr ''out/ch2_summary.md'', ustr ''out/ch1_summary.md''])) = 2 \<and>
   sections (read_text example_env)
     (sorted_files ascii_digit [ustr ''out/ch2_summary.md'', ustr ''out/ch1_summary.md'']) ! 1
     = ustr ''## 2. ch2_summary.md\<newline>\<newline>'' @ read_failed_note @ ustr '': No such file\<newline>\<newline>''"
proof -
  have h: "heap example_state 0 = Some [ustr ''out/ch2_summary.md'', ustr ''out/ch1_summary.md'']"
    by (simp add: example_state_def)
  have o: "open_for_write example_env (ustr ''out/summary.md'') = None"
    by (simp add: example_env_def)
  have r: "read_text example_env (ustr ''out/ch2_summary.md'') = Inl (ustr ''No such file'')"
    by (simp add: example_env_def)
  from merge_read_failure [OF h o, of ascii_digit]
  have a: "snd (merge_summaries ascii_digit example_env example_state 0 (ustr ''out/summary.md''))
             = Inr True"
    and l: "length (sections (read_text example_env)
              (sorted_files ascii_digit [ustr ''out/ch2_summary.md'', ustr ''out/ch1_summary.md'']))
            = length [ustr ''out/ch2_summary.md'', ustr ''out/ch1_summary.md'']"
    and n: "\<forall>k < length [ustr ''out/ch2_summary.md'', ustr ''out/ch1_summary.md''].
            sections (read_text example_env)
              (sorted_files ascii_digit [ustr ''out/ch2_summary.md'', ustr ''out/ch1_summary.md'']) ! k =
              (case read_text example_env
                  (sorted_files ascii_digit [ustr ''out/ch2_summary.md'', ustr ''out/ch1_summary.md''] ! k) of
                 Inl e \<Rightarrow> failed_section (k + 1)
                   (sorted_files ascii_digit [ustr ''out/ch2_summary.md'', ustr ''out/ch1_summary.md''] ! k) e
               | Inr stored \<Rightarrow> readable_section (k + 1)
                   (sorted_files ascii_digit [ustr ''out/ch2_summary.md'', ustr ''out/ch1_summary.md''] ! k)
                   stored)"
    by blast+
  from n [rule_format, of 1]
  have "sections (read_text example_env)
     (sorted_files ascii_digit [ustr ''out/ch2_summary.md'', ustr ''out/ch1_summary.md'']) ! 1
     = failed_section 2 (ustr ''out/ch2_summary.md'') (ustr ''No such file'')"
    by (simp add: example_sorted r numeral_2_eq_2)
  with a l show ?thesis by (simp add: example_failed_section)
qed

text \<open>
  Claim C10. The list passed to \<^verbatim>\<open>merge_summaries\<close> is the same after the call as before
  it, whether the call returns or raises: the sorted list is a new object, at a reference
  that was not in use (the argument, given out earlier, is below \<open>next_ref\<close>).
\<close>

theorem merge_keeps_input:
  assumes "summary_files < next_ref st"
  shows "heap (fst (merge_summaries dv env st summary_files output_path)) summary_files
           = heap st summary_files"
  using assms
  by (simp add: merge_summaries_def new_list_def Let_def split: option.splits)

theorem merge_keeps_input_witness:
  "heap (fst (merge_summaries ascii_digit example_env example_state 0 (ustr ''out/summary.md''))) 0
     = Some [ustr ''out/ch2_summary.md'', ustr ''out/ch1_summary.md''] \<and>
   heap (fst (merge_summaries ascii_digit example_env example_state 0 (ustr ''out/summary.md''))) 1
     = Some [ustr ''out/ch1_summary.md'', ustr ''out/ch2_summary.md'']"
proof -
  have n: "0 < next_ref example_state" by (simp add: example_state_def)
  have h: "heap example_state 0 = Some [ustr ''out/ch2_summary.md'', ustr ''out/ch1_summary.md'']"
    by (simp add: example_state_def)
  have hn: "has_numbering ascii_digit [ustr ''out/ch2_summary.md'', ustr ''out/ch1_summary.md'']"
    by (simp add: has_numbering_def basename_def ustr_def ascii_digit_def)
  have s: "py_sorted (file_sort_key ascii_digit)
             [ustr ''out/ch2_summary.md'', ustr ''out/ch1_summary.md'']
           = [ustr ''out/ch1_summary.md'', ustr ''out/ch2_summary.md'']"
    using example_sorted hn by (simp add: sorted_files_def)
  have "heap (fst (merge_summaries ascii_digit example_env example_state 0
                     (ustr ''out/summary.md''))) 1
     = Some [ustr ''out/ch1_summary.md'', ustr ''out/ch2_summary.md'']"
    using h hn s
    by (simp add: merge_summaries_def new_list_def Let_def example_env_def)
      (simp add: example_state_def)
  with merge_keeps_input [OF n, of ascii_digit example_env "ustr ''out/summary.md''"] h
  show ?thesis by simp
qed


lemma example_title: "chapter_title (ustr ''out/ch1_summary.md'') = ustr ''ch1''"
  by (simp add: chapter_title_def basename_def ustr_def replace.simps)

lemma noted_lines:
  "split_on 10 noted_summary = [ustr ''# T'', [], ustr ''body'', ustr ''# note'', ustr ''more'']"
  by (simp add: noted_summary_def ustr_def)

lemma noted_body:
  "strip (join [10]
     (filter (\<lambda>line. \<not> startswith (strip line) (ustr ''#'')) (split_on 10 noted_summary)))
   = ustr ''body\<newline>more''"
  by (simp add: noted_lines) (simp add: ustr_def startswith_def strip_def lstrip_def rstrip_def is_space_def)

lemma example_section:
  "sections_loop (read_text example_env) 0 [ustr ''out/ch1_summary.md''] []
     = ustr ''## 1. ch1\<newline>\<newline>body\<newline>more\<newline>\<newline>''"
proof -
  have r: "read_text example_env (ustr ''out/ch1_summary.md'') = Inr noted_summary"
    by (simp add: example_env_def ustr_def)
  have c: "strip (join [10] (content_lines noted_summary)) = ustr ''body\<newline>more''"
    using noted_body by (simp add: content_lines_def)
  show ?thesis
    by (simp add: r c example_title) (simp add: ustr_def str_nat.simps)
qed

text \<open>
  Claim C6 holds of the merge the source means to write: the comment at line 157 says to
  skip the title line of the stored file, and the program writes one title line at the head
  of every summary. Line 159 drops every line that starts with \<^verbatim>\<open>#\<close> once trimmed. For a
  summary with such a line after its body text, the line is not a leading line, yet it is
  not in the section that is written.
\<close>

theorem merge_section_drops_later_heading:
  "sections_loop (read_text example_env) 0 [ustr ''out/ch1_summary.md''] []
     = ustr ''## 1. ch1\<newline>\<newline>body\<newline>more\<newline>\<newline>'' \<and>
   ustr ''# note'' \<in> set (dropWhile (\<lambda>line. startswith (strip line) (ustr ''#''))
                           (split_on 10 noted_summary)) \<and>
   ustr ''# note'' \<notin> set (split_on 10
       (sections_loop (read_text example_env) 0 [ustr ''out/ch1_summary.md''] []))"
proof -
  have a: "ustr ''# note'' \<in> set (dropWhile (\<lambda>line. startswith (strip line) (ustr ''#''))
                           (split_on 10 noted_summary))"
    by (simp add: noted_lines) (simp add: ustr_def startswith_def strip_def lstrip_def rstrip_def is_space_def)
  have b: "ustr ''# note'' \<notin> set (split_on 10 (ustr ''## 1. ch1\<newline>\<newline>body\<newline>more\<newline>\<newline>''))"
    by (simp add: ustr_def)
  from a b example_section show ?thesis by simp
qed

end
